theory Spec2Isabelle
  imports Complex_Main "HOL-Library.Multiset" "HOL-Library.Log_Nat"
begin

section \<open>Two models of \<^verbatim>\<open>system_transport.py\<close>\<close>

text \<open>
  The source annotates \<^verbatim>\<open>age: int\<close> (Python's unbounded integer, here \<^typ>\<open>int\<close>) and
  \<^verbatim>\<open>distance_km: float\<close>, \<^verbatim>\<open>base_rate_per_km: float\<close>. The program is modelled twice.

  \<^item> The exact model, first: the specification types every \<^verbatim>\<open>float\<close> of the source as a
    real number, and this model does the same. \<^verbatim>\<open>float\<close> is \<^typ>\<open>real\<close>, the literals
    \<^verbatim>\<open>0.5\<close>, \<^verbatim>\<open>0.7\<close>, \<^verbatim>\<open>500.0\<close> are the reals \<open>1/2\<close>, \<open>7/10\<close>, \<open>500\<close>, and \<^verbatim>\<open>*\<close>, \<^verbatim>\<open>+\<close> are
    exact. The statements proved on it (C2 to C6, C8, C9) are relations, inequalities and
    example values that rounding preserves.
  \<^item> The machine model, second (names ending in \<open>_py\<close>): a Python number is an \<^verbatim>\<open>int\<close> or
    a \<^verbatim>\<open>float\<close>, a \<^verbatim>\<open>float\<close> is an IEEE 754 binary64 value, every product and sum is
    rounded to nearest, ties to even, and converting an \<^verbatim>\<open>int\<close> that is too large raises
    \<^verbatim>\<open>OverflowError\<close>. The statements that depend on rounding or on an exception (C1,
    C7, C10) are settled on it.
\<close>

section \<open>The exact model\<close>

text \<open>\<^verbatim>\<open>BASE_RATE_PER_KM = 500.0\<close>\<close>

definition BASE_RATE_PER_KM :: real where
  "BASE_RATE_PER_KM = 500"

text \<open>
  \<^verbatim>\<open>class Passenger\<close>: the four attributes that \<^verbatim>\<open>__init__\<close> creates.
\<close>

record Passenger =
  name :: string
  age :: int
  distance_km :: real
  final_fare :: real

text \<open>
  \<^verbatim>\<open>Passenger.__init__(self, name, age, distance_km)\<close>: stores the three arguments and
  sets \<^verbatim>\<open>final_fare = 0.0\<close>.
\<close>

definition Passenger_init :: "string \<Rightarrow> int \<Rightarrow> real \<Rightarrow> Passenger" where
  "Passenger_init n a d = \<lparr>name = n, age = a, distance_km = d, final_fare = 0\<rparr>"

text \<open>
  \<^verbatim>\<open>Passenger.compute_fare(self, base_rate_per_km)\<close> assigns \<^verbatim>\<open>self.final_fare\<close> in one of
  three branches and returns \<^verbatim>\<open>self.final_fare\<close>. The method mutates its object, so the
  model returns the pair of the returned value and the object after the call. The
  method has no \<^verbatim>\<open>raise\<close>, no \<^verbatim>\<open>assert\<close> and no early return.
\<close>

definition compute_fare :: "Passenger \<Rightarrow> real \<Rightarrow> real \<times> Passenger" where
  "compute_fare self base_rate_per_km =
     (let base_fare = base_rate_per_km * distance_km self;
          self' =
            (if age self < 12 then self\<lparr>final_fare := base_fare * 0.5\<rparr>
             else if age self > 60 then self\<lparr>final_fare := base_fare * 0.7\<rparr>
             else self\<lparr>final_fare := base_fare\<rparr>)
      in (final_fare self', self'))"

text \<open>
  The default argument \<^verbatim>\<open>base_rate_per_km = BASE_RATE_PER_KM\<close> of \<^verbatim>\<open>compute_fare\<close> and of
  \<^verbatim>\<open>TransportFareCalculator.__init__\<close>.
\<close>

definition compute_fare_default :: "Passenger \<Rightarrow> real \<times> Passenger" where
  "compute_fare_default self = compute_fare self BASE_RATE_PER_KM"

text \<open>
  \<^verbatim>\<open>class TransportFareCalculator\<close>: the rate and the list of passengers. The Python list
  holds references to \<^verbatim>\<open>Passenger\<close> objects; the model holds the objects' states in the
  same order. \<^verbatim>\<open>compute_fare\<close> reads only the fields of its own object and the rate, and
  writes only \<^verbatim>\<open>final_fare\<close> of its own object, so an object that is stored twice has
  the same state at both positions before and after every operation modelled here.
\<close>

record TransportFareCalculator =
  base_rate_per_km :: real
  passengers :: "Passenger list"

definition TransportFareCalculator_init :: "real \<Rightarrow> TransportFareCalculator" where
  "TransportFareCalculator_init rate = \<lparr>base_rate_per_km = rate, passengers = []\<rparr>"

definition TransportFareCalculator_default :: TransportFareCalculator where
  "TransportFareCalculator_default = TransportFareCalculator_init BASE_RATE_PER_KM"

text \<open>\<^verbatim>\<open>add_passenger\<close>: \<^verbatim>\<open>self.passengers.append(passenger)\<close>.\<close>

definition add_passenger :: "TransportFareCalculator \<Rightarrow> Passenger \<Rightarrow> TransportFareCalculator" where
  "add_passenger self passenger = self\<lparr>passengers := passengers self @ [passenger]\<rparr>"

text \<open>
  \<^verbatim>\<open>process_all\<close>: the \<^verbatim>\<open>for\<close> loop over \<^verbatim>\<open>self.passengers\<close>, front to back; each iteration
  calls \<^verbatim>\<open>compute_fare\<close> with the calculator's rate, drops the returned value and keeps
  the mutated passenger.
\<close>

fun process_loop :: "real \<Rightarrow> Passenger list \<Rightarrow> Passenger list" where
  "process_loop rate [] = []"
| "process_loop rate (passenger # rest) =
     snd (compute_fare passenger rate) # process_loop rate rest"

definition process_all :: "TransportFareCalculator \<Rightarrow> TransportFareCalculator" where
  "process_all self =
     self\<lparr>passengers := process_loop (base_rate_per_km self) (passengers self)\<rparr>"

text \<open>
  \<^verbatim>\<open>total_collected\<close>: \<^verbatim>\<open>sum(p.final_fare for p in self.passengers)\<close>. Python's \<^verbatim>\<open>sum\<close>
  starts from \<open>0\<close> and adds the items from the left.
\<close>

definition total_collected :: "TransportFareCalculator \<Rightarrow> real" where
  "total_collected self = foldl (\<lambda>acc p. acc + final_fare p) 0 (passengers self)"

text \<open>
  \<^verbatim>\<open>print_summary\<close>. Each \<^verbatim>\<open>print\<close> call is one output line. The text layout of a line
  (padding, two decimals for the distance, thousands separators for the fare) is not
  modelled: a line carries the values that the call formats.
\<close>

datatype out_line =
    Rule_line                       \<comment> \<open>\<^verbatim>\<open>"=" * 50\<close>, with its leading or trailing newline\<close>
  | Title_line                      \<comment> \<open>\<^verbatim>\<open>"SUMMARY OF FARES".center(50)\<close>\<close>
  | No_passengers_line              \<comment> \<open>\<^verbatim>\<open>"No passengers processed."\<close>\<close>
  | Header_line                     \<comment> \<open>the column titles\<close>
  | Dash_line                       \<comment> \<open>\<^verbatim>\<open>"-" * 50\<close>\<close>
  | Row_line string int real real   \<comment> \<open>name, age, distance, fare of one passenger\<close>
  | Total_line real                 \<comment> \<open>\<^verbatim>\<open>"Total collected:"\<close> and the total\<close>

fun print_rows :: "Passenger list \<Rightarrow> out_line list" where
  "print_rows [] = []"
| "print_rows (p # rest) =
     Row_line (name p) (age p) (distance_km p) (final_fare p) # print_rows rest"

text \<open>
  The result is the list of lines printed and the calculator after the call. The method
  reads attributes and calls \<^verbatim>\<open>total_collected\<close>; it has no assignment.
\<close>

definition print_summary :: "TransportFareCalculator \<Rightarrow> out_line list \<times> TransportFareCalculator" where
  "print_summary self =
     (if passengers self = [] then
        ([Rule_line, Title_line, Rule_line, No_passengers_line], self)
      else
        ([Rule_line, Title_line, Rule_line, Header_line, Dash_line]
           @ print_rows (passengers self)
           @ [Dash_line, Total_line (total_collected self), Rule_line],
         self))"

fun is_row :: "out_line \<Rightarrow> bool" where
  "is_row (Row_line n a d f) = True"
| "is_row _ = False"

section \<open>The fare rule of the specification\<close>

text \<open>
  The specification's \<open>FareRule\<close> (section 4.1), written from its words for comparison
  with \<^const>\<open>compute_fare\<close>: \<open>base = base_rate_per_km * distance_km\<close>; if \<open>age < 12\<close> the
  result is \<open>base * 0.5\<close>, else if \<open>age > 60\<close> it is \<open>base * 0.7\<close>, else \<open>base\<close>.
\<close>

definition FareRule :: "real \<Rightarrow> int \<Rightarrow> real \<Rightarrow> real" where
  "FareRule d a rate =
     (let base = rate * d
      in if a < 12 then base * 0.5 else if a > 60 then base * 0.7 else base)"

section \<open>IEEE 754 binary64 arithmetic\<close>

text \<open>
  A double is a finite value, an infinity or NaN. A finite double is given by the real
  number it denotes; the two zeros \<^verbatim>\<open>0.0\<close> and \<^verbatim>\<open>-0.0\<close> are one value (Python's comparisons
  do not distinguish them, and the program has no division).
\<close>

datatype double = Finite real | PosInf | NegInf | NaN

text \<open>
  \<open>round_even\<close> rounds a real to the nearest integer, a tie to the even one.
  \<open>round64\<close> rounds a real to the nearest double, as every binary64 operation does to
  its exact result. With \<open>t = \<bar>x\<bar> * 2 ^ 1074\<close>, the magnitude in units of the smallest
  subnormal \<open>2 ^ -1074\<close>, the \<open>k\<close> bits of \<open>t\<close> below its 53 leading ones are rounded away
  (\<open>k = 0\<close> for subnormals and the first binade), and a rounded magnitude of \<open>2 ^ 1024\<close> or
  more overflows to the infinity of the sign.
\<close>

definition round_even :: "real \<Rightarrow> int" where
  "round_even y =
     (let f = \<lfloor>y\<rfloor>; r = y - of_int f
      in if r < 1 / 2 then f else if 1 / 2 < r then f + 1 else if even f then f else f + 1)"

definition round64 :: "real \<Rightarrow> double" where
  "round64 x =
     (let t = \<bar>x\<bar> * 2 ^ 1074;
          k = nat (bitlen \<lfloor>t\<rfloor> - 53);
          m = round_even (t / 2 ^ k) * 2 ^ k
      in if 2 ^ 2098 \<le> m then (if 0 < x then PosInf else NegInf)
         else Finite (sgn x * of_int m / 2 ^ 1074))"

text \<open>
  \<^verbatim>\<open>x < 0\<close> and \<^verbatim>\<open>x <= 0\<close> on doubles (false for NaN), and the test for zero.
\<close>

fun d_lt0 :: "double \<Rightarrow> bool" where
  "d_lt0 (Finite x) = (x < 0)"
| "d_lt0 NegInf = True"
| "d_lt0 _ = False"

fun d_le0 :: "double \<Rightarrow> bool" where
  "d_le0 (Finite x) = (x \<le> 0)"
| "d_le0 NegInf = True"
| "d_le0 _ = False"

fun d_zero :: "double \<Rightarrow> bool" where
  "d_zero (Finite x) = (x = 0)"
| "d_zero _ = False"

text \<open>
  The double product and sum: the exact result rounded; IEEE's rules for infinities
  (\<open>0 * inf\<close> and \<open>inf - inf\<close> are NaN) and for NaN, which absorbs.
\<close>

fun dmul :: "double \<Rightarrow> double \<Rightarrow> double" where
  "dmul (Finite x) (Finite y) = round64 (x * y)"
| "dmul NaN b = NaN"
| "dmul a NaN = NaN"
| "dmul a b =
     (if d_zero a \<or> d_zero b then NaN else if d_lt0 a = d_lt0 b then PosInf else NegInf)"

fun dadd :: "double \<Rightarrow> double \<Rightarrow> double" where
  "dadd (Finite x) (Finite y) = round64 (x + y)"
| "dadd NaN b = NaN"
| "dadd a NaN = NaN"
| "dadd PosInf NegInf = NaN"
| "dadd NegInf PosInf = NaN"
| "dadd PosInf b = PosInf"
| "dadd a PosInf = PosInf"
| "dadd NegInf b = NegInf"
| "dadd a NegInf = NegInf"

section \<open>Python numbers\<close>

text \<open>
  The annotation \<^verbatim>\<open>float\<close> does not restrict what the program receives, and a type
  checker accepts an \<^verbatim>\<open>int\<close> where a \<^verbatim>\<open>float\<close> is annotated: distance, rate and fare are
  Python numbers, \<^verbatim>\<open>int\<close> or \<^verbatim>\<open>float\<close>.
\<close>

datatype pynum = PyInt int | PyFloat double

datatype py_error = OverflowError

text \<open>
  A float literal such as \<^verbatim>\<open>0.7\<close> is the double nearest to the decimal. Converting an
  \<^verbatim>\<open>int\<close> to a double rounds to nearest, ties to even, and raises
  \<^verbatim>\<open>OverflowError: int too large to convert to float\<close> when the result is not finite.
\<close>

definition float_literal :: "real \<Rightarrow> pynum" where
  "float_literal q = PyFloat (round64 q)"

definition float_of_int :: "int \<Rightarrow> py_error + double" where
  "float_of_int n =
     (case round64 (of_int n) of Finite x \<Rightarrow> Inr (Finite x) | _ \<Rightarrow> Inl OverflowError)"

text \<open>
  \<^verbatim>\<open>v * w\<close> and \<^verbatim>\<open>v + w\<close>: exact on two \<^verbatim>\<open>int\<close>s; otherwise both operands are taken as
  doubles (converting an \<^verbatim>\<open>int\<close>, which can raise) and the double operation is applied.
\<close>

fun as_double :: "pynum \<Rightarrow> py_error + double" where
  "as_double (PyFloat x) = Inr x"
| "as_double (PyInt n) = float_of_int n"

fun py_mul :: "pynum \<Rightarrow> pynum \<Rightarrow> py_error + pynum" where
  "py_mul (PyInt a) (PyInt b) = Inr (PyInt (a * b))"
| "py_mul v w =
     (case as_double v of
        Inl e \<Rightarrow> Inl e
      | Inr a \<Rightarrow> (case as_double w of Inl e \<Rightarrow> Inl e | Inr b \<Rightarrow> Inr (PyFloat (dmul a b))))"

fun py_add :: "pynum \<Rightarrow> pynum \<Rightarrow> py_error + pynum" where
  "py_add (PyInt a) (PyInt b) = Inr (PyInt (a + b))"
| "py_add v w =
     (case as_double v of
        Inl e \<Rightarrow> Inl e
      | Inr a \<Rightarrow> (case as_double w of Inl e \<Rightarrow> Inl e | Inr b \<Rightarrow> Inr (PyFloat (dadd a b))))"

text \<open>\<^verbatim>\<open>v < 0\<close> and \<^verbatim>\<open>v <= 0\<close> on Python numbers, and \<^verbatim>\<open>isinstance(v, float)\<close>.\<close>

fun py_lt0 :: "pynum \<Rightarrow> bool" where
  "py_lt0 (PyInt n) = (n < 0)"
| "py_lt0 (PyFloat x) = d_lt0 x"

fun py_le0 :: "pynum \<Rightarrow> bool" where
  "py_le0 (PyInt n) = (n \<le> 0)"
| "py_le0 (PyFloat x) = d_le0 x"

fun is_float :: "pynum \<Rightarrow> bool" where
  "is_float (PyFloat x) = True"
| "is_float (PyInt n) = False"

section \<open>The machine model of the program\<close>

text \<open>
  The same classes and methods as in the exact model, on Python numbers. A method that
  can raise returns the error or the value, and the object as the call left it: an
  exception in \<^verbatim>\<open>compute_fare\<close> is raised by a multiplication, before the assignment to
  \<^verbatim>\<open>self.final_fare\<close>.
\<close>

record PyPassenger =
  py_name :: string
  py_age :: int
  py_distance_km :: pynum
  py_final_fare :: pynum

definition PyPassenger_init :: "string \<Rightarrow> int \<Rightarrow> pynum \<Rightarrow> PyPassenger" where
  "PyPassenger_init n a d =
     \<lparr>py_name = n, py_age = a, py_distance_km = d, py_final_fare = float_literal 0\<rparr>"

definition compute_fare_py :: "PyPassenger \<Rightarrow> pynum \<Rightarrow> (py_error + pynum) \<times> PyPassenger" where
  "compute_fare_py self rate =
     (case py_mul rate (py_distance_km self) of
        Inl e \<Rightarrow> (Inl e, self)
      | Inr base_fare \<Rightarrow>
          (if py_age self < 12 then
             (case py_mul base_fare (float_literal (1 / 2)) of
                Inl e \<Rightarrow> (Inl e, self)
              | Inr v \<Rightarrow> (let self' = self\<lparr>py_final_fare := v\<rparr> in (Inr (py_final_fare self'), self')))
           else if py_age self > 60 then
             (case py_mul base_fare (float_literal (7 / 10)) of
                Inl e \<Rightarrow> (Inl e, self)
              | Inr v \<Rightarrow> (let self' = self\<lparr>py_final_fare := v\<rparr> in (Inr (py_final_fare self'), self')))
           else
             (let self' = self\<lparr>py_final_fare := base_fare\<rparr> in (Inr (py_final_fare self'), self'))))"

record PyCalculator =
  py_base_rate_per_km :: pynum
  py_passengers :: "PyPassenger list"

definition PyCalculator_init :: "pynum \<Rightarrow> PyCalculator" where
  "PyCalculator_init rate = \<lparr>py_base_rate_per_km = rate, py_passengers = []\<rparr>"

definition add_passenger_py :: "PyCalculator \<Rightarrow> PyPassenger \<Rightarrow> PyCalculator" where
  "add_passenger_py self passenger = self\<lparr>py_passengers := py_passengers self @ [passenger]\<rparr>"

text \<open>
  \<^verbatim>\<open>process_all\<close>: the loop stops at the first exception, which propagates; the passengers
  before it keep their new fares, the others are untouched.
\<close>

fun process_loop_py :: "pynum \<Rightarrow> PyPassenger list \<Rightarrow> py_error option \<times> PyPassenger list" where
  "process_loop_py rate [] = (None, [])"
| "process_loop_py rate (passenger # rest) =
     (case compute_fare_py passenger rate of
        (Inl e, passenger') \<Rightarrow> (Some e, passenger' # rest)
      | (Inr v, passenger') \<Rightarrow>
          (case process_loop_py rate rest of (r, rest') \<Rightarrow> (r, passenger' # rest')))"

definition process_all_py :: "PyCalculator \<Rightarrow> py_error option \<times> PyCalculator" where
  "process_all_py self =
     (case process_loop_py (py_base_rate_per_km self) (py_passengers self) of
        (r, ps) \<Rightarrow> (r, self\<lparr>py_passengers := ps\<rparr>))"

text \<open>
  \<^verbatim>\<open>total_collected\<close>: \<^verbatim>\<open>sum\<close> starts from the \<^verbatim>\<open>int\<close> \<open>0\<close> and adds the items from the
  left, each addition rounded. (This is the built-in \<^verbatim>\<open>sum\<close> of CPython up to 3.11; from
  3.12 on it compensates the rounding errors of a sum of floats.)
\<close>

fun sum_py :: "pynum \<Rightarrow> pynum list \<Rightarrow> py_error + pynum" where
  "sum_py acc [] = Inr acc"
| "sum_py acc (x # xs) = (case py_add acc x of Inl e \<Rightarrow> Inl e | Inr acc' \<Rightarrow> sum_py acc' xs)"

definition total_collected_py :: "PyCalculator \<Rightarrow> py_error + pynum" where
  "total_collected_py self = sum_py (PyInt 0) (map py_final_fare (py_passengers self))"

section \<open>Shared lemmas\<close>

lemma compute_fare_value:
  "fst (compute_fare p rate) = FareRule (distance_km p) (age p) rate"
  by (simp add: compute_fare_def FareRule_def Let_def)

lemma compute_fare_object:
  "snd (compute_fare p rate) = p\<lparr>final_fare := FareRule (distance_km p) (age p) rate\<rparr>"
  by (simp add: compute_fare_def FareRule_def Let_def)

lemma process_loop_map:
  "process_loop rate ps =
     map (\<lambda>p. p\<lparr>final_fare := FareRule (distance_km p) (age p) rate\<rparr>) ps"
  by (induction ps) (simp_all add: compute_fare_object)

lemma foldl_add_fares:
  "foldl (\<lambda>acc p. acc + final_fare p) a ps = a + sum_list (map final_fare ps)"
  by (induction ps arbitrary: a) simp_all

lemma total_collected_sum_list:
  "total_collected b = sum_list (map final_fare (passengers b))"
  by (simp add: total_collected_def foldl_add_fares)

lemma fresh_batch_fares:
  "map final_fare
     (passengers (fold (\<lambda>(n, a, d) c. add_passenger c (Passenger_init n a d)) entries c0))
     = map final_fare (passengers c0) @ replicate (length entries) 0"
  by (induction entries arbitrary: c0)
     (auto simp: add_passenger_def Passenger_init_def replicate_append_same)

lemma sum_list_replicate_zero: "sum_list (replicate n (0::real)) = 0"
  by (induction n) simp_all

lemma filter_is_row_print_rows:
  "filter is_row (print_rows ps)
     = map (\<lambda>p. Row_line (name p) (age p) (distance_km p) (final_fare p)) ps"
  by (induction ps) simp_all

lemmas model_defs =
  compute_fare_def Passenger_init_def TransportFareCalculator_init_def add_passenger_def
  process_all_def total_collected_def FareRule_def Let_def

section \<open>Lemmas on rounding\<close>

lemma bitlen_eqI: "2 ^ j \<le> n \<Longrightarrow> n < 2 ^ Suc j \<Longrightarrow> bitlen n = int (Suc j)"
proof -
  assume a: "2 ^ j \<le> n" and b: "n < 2 ^ Suc j"
  have pos: "0 < n" using a by (smt (verit) zero_less_power)
  then have one: "1 \<le> bitlen n" by (auto simp: bitlen_alt_def)
  define c where "c = nat (bitlen n - 1)"
  have bl: "bitlen n = int (Suc c)" using one by (simp add: c_def)
  have n1: "nat (bitlen n - 1) = c" and n2: "nat (bitlen n) = Suc c"
    unfolding bl by simp_all
  from bitlen_bounds [OF pos] have lo: "2 ^ c \<le> n" and hi: "n < 2 ^ Suc c"
    unfolding n1 n2 by simp_all
  have "(2::int) ^ c < 2 ^ Suc j" using lo b by linarith
  then have 1: "c < Suc j" by (rule power_less_imp_less_exp [rotated]) simp
  have "(2::int) ^ j < 2 ^ Suc c" using a hi by linarith
  then have 2: "j < Suc c" by (rule power_less_imp_less_exp [rotated]) simp
  from 1 2 have "c = j" by simp
  then show ?thesis using bl by simp
qed

lemma round_even_eqI:
  "of_int M - 1 / 2 < y \<Longrightarrow> y < of_int M + 1 / 2 \<Longrightarrow> round_even y = M"
proof -
  assume a: "of_int M - 1 / 2 < y" and b: "y < of_int M + 1 / 2"
  show ?thesis
  proof (cases "of_int M \<le> y")
    case True
    then have "\<lfloor>y\<rfloor> = M" using b by (simp add: floor_unique)
    then show ?thesis using b by (simp add: round_even_def Let_def)
  next
    case False
    then have f: "\<lfloor>y\<rfloor> = M - 1" using a by (intro floor_unique) auto
    then show ?thesis using a by (simp add: round_even_def Let_def)
  qed
qed

lemma round_even_of_int [simp]: "round_even (of_int M) = M"
  by (rule round_even_eqI) simp_all

lemma round64_normal:
  assumes lo: "2 ^ (52 + k) \<le> \<bar>x\<bar> * 2 ^ 1074"
    and hi: "\<bar>x\<bar> * 2 ^ 1074 < 2 ^ (53 + k)"
    and r: "round_even (\<bar>x\<bar> * 2 ^ 1074 / 2 ^ k) = M"
    and fin: "M * 2 ^ k < 2 ^ 2098"
  shows "round64 x = Finite (sgn x * of_int (M * 2 ^ k) / 2 ^ 1074)"
proof -
  let ?t = "\<bar>x\<bar> * 2 ^ 1074"
  have "(2::int) ^ (52 + k) \<le> \<lfloor>?t\<rfloor>"
    using lo by (simp add: le_floor_iff)
  moreover have "\<lfloor>?t\<rfloor> < 2 ^ Suc (52 + k)"
    using hi by (simp add: floor_less_iff)
  ultimately have "bitlen \<lfloor>?t\<rfloor> = int (Suc (52 + k))" by (rule bitlen_eqI)
  then have "nat (bitlen \<lfloor>?t\<rfloor> - 53) = k" by simp
  then show ?thesis using r fin by (simp add: round64_def Let_def)
qed

lemma round64_subnormal:
  assumes hi: "\<bar>x\<bar> * 2 ^ 1074 < 2 ^ 53"
  shows "round64 x = Finite (sgn x * of_int (round_even (\<bar>x\<bar> * 2 ^ 1074)) / 2 ^ 1074)"
proof -
  let ?t = "\<bar>x\<bar> * 2 ^ 1074"
  have "\<lfloor>?t\<rfloor> < 2 ^ 53" using hi by (simp add: floor_less_iff)
  then have "bitlen \<lfloor>?t\<rfloor> \<le> 53" by (simp add: bitlen_le_iff_power)
  then have k: "nat (bitlen \<lfloor>?t\<rfloor> - 53) = 0" by simp
  have "round_even ?t \<le> \<lfloor>?t\<rfloor> + 1" by (simp add: round_even_def Let_def)
  also have "\<dots> \<le> 2 ^ 53" using \<open>\<lfloor>?t\<rfloor> < 2 ^ 53\<close> by simp
  also have "\<dots> < (2::int) ^ 2098" by simp
  finally have "round_even ?t < 2 ^ 2098" .
  then show ?thesis using k by (simp add: round64_def Let_def)
qed

lemma round64_overflow:
  assumes lo: "2 ^ (52 + k) \<le> \<bar>x\<bar> * 2 ^ 1074"
    and hi: "\<bar>x\<bar> * 2 ^ 1074 < 2 ^ (53 + k)"
    and r: "round_even (\<bar>x\<bar> * 2 ^ 1074 / 2 ^ k) = M"
    and inf: "2 ^ 2098 \<le> M * 2 ^ k"
  shows "round64 x = (if 0 < x then PosInf else NegInf)"
proof -
  let ?t = "\<bar>x\<bar> * 2 ^ 1074"
  have "(2::int) ^ (52 + k) \<le> \<lfloor>?t\<rfloor>"
    using lo by (simp add: le_floor_iff)
  moreover have "\<lfloor>?t\<rfloor> < 2 ^ Suc (52 + k)"
    using hi by (simp add: floor_less_iff)
  ultimately have "bitlen \<lfloor>?t\<rfloor> = int (Suc (52 + k))" by (rule bitlen_eqI)
  then have "nat (bitlen \<lfloor>?t\<rfloor> - 53) = k" by simp
  then show ?thesis using r inf by (simp add: round64_def Let_def)
qed

lemma round_even_zero [simp]: "round_even 0 = 0"
  by (simp add: round_even_def)

lemma round_even_mono_int: "of_int N \<le> y \<Longrightarrow> N \<le> round_even y"
proof -
  assume "of_int N \<le> y"
  then have "N \<le> \<lfloor>y\<rfloor>" by (simp add: le_floor_iff)
  then show ?thesis by (simp add: round_even_def Let_def)
qed

lemma round64_cases:
  obtains (fin) m where "0 \<le> m" "round64 x = Finite (sgn x * of_int m / 2 ^ 1074)"
      "\<And>N. \<lbrakk>N \<le> 2; of_int N \<le> \<bar>x\<bar> * 2 ^ 1074\<rbrakk> \<Longrightarrow> N \<le> m"
    | (inf) "x \<noteq> 0" "round64 x = (if 0 < x then PosInf else NegInf)"
proof -
  let ?t = "\<bar>x\<bar> * 2 ^ 1074"
  let ?k = "nat (bitlen \<lfloor>?t\<rfloor> - 53)"
  let ?m = "round_even (?t / 2 ^ ?k) * 2 ^ ?k"
  have t0: "0 \<le> ?t" by simp
  have q0: "0 \<le> ?t / 2 ^ ?k" by simp
  have r0: "0 \<le> round_even (?t / 2 ^ ?k)"
    by (rule round_even_mono_int) (use q0 in simp)
  have m0: "0 \<le> ?m" using r0 by simp
  have low: "N \<le> ?m" if n2: "N \<le> 2" and nt: "of_int N \<le> ?t" for N
  proof (cases "?k = 0")
    case True
    then show ?thesis using round_even_mono_int [OF nt] by simp
  next
    case False
    then have bl: "54 \<le> bitlen \<lfloor>?t\<rfloor>" by simp
    then have pos: "0 < \<lfloor>?t\<rfloor>" by (smt (verit) bitlen_eq_zero_iff)
    have eq: "nat (bitlen \<lfloor>?t\<rfloor> - 1) = 52 + ?k" using bl by simp
    from bitlen_bounds [OF pos] have "(2::int) ^ (52 + ?k) \<le> \<lfloor>?t\<rfloor>"
      unfolding eq by simp
    then have "(2::real) ^ (52 + ?k) \<le> ?t"
      by (metis (no_types, opaque_lifting) le_floor_iff of_int_numeral of_int_power)
    then have "(2::real) ^ 52 * 2 ^ ?k \<le> ?t" by (simp add: power_add)
    then have "of_int (2 ^ 52) \<le> ?t / 2 ^ ?k" by (simp add: pos_le_divide_eq)
    then have "2 ^ 52 \<le> round_even (?t / 2 ^ ?k)" by (rule round_even_mono_int)
    then have "(2::int) ^ 52 * 1 \<le> ?m"
      by (intro mult_mono) simp_all
    then show ?thesis using n2 by simp
  qed
  show thesis
  proof (cases "2 ^ 2098 \<le> ?m")
    case True
    have "x \<noteq> 0"
    proof
      assume "x = 0"
      then have "?m = 0" by simp
      with True show False by simp
    qed
    moreover have "round64 x = (if 0 < x then PosInf else NegInf)"
      using True by (simp add: round64_def Let_def)
    ultimately show thesis by (rule inf)
  next
    case False
    then have "round64 x = Finite (sgn x * of_int ?m / 2 ^ 1074)"
      by (simp add: round64_def Let_def)
    with m0 show thesis using low by (rule fin)
  qed
qed

lemma round64_le0: "x \<le> 0 \<Longrightarrow> d_le0 (round64 x)"
proof (cases x rule: round64_cases)
  case (fin m)
  assume "x \<le> 0"
  then have "sgn x * of_int m / 2 ^ 1074 \<le> 0"
    using fin(1) by (simp add: sgn_real_def mult_le_0_iff divide_le_0_iff)
  then show ?thesis using fin(2) by simp
next
  case inf
  assume "x \<le> 0"
  then show ?thesis using inf by simp
qed

lemma round64_neg_bound:
  assumes "N = 1 \<or> N = 2" and "x \<le> - (of_int N / 2 ^ 1074)"
  shows "round64 x = NegInf \<or> (\<exists>y. round64 x = Finite y \<and> y \<le> - (of_int N / 2 ^ 1074))"
proof (cases x rule: round64_cases)
  case (fin m)
  have xneg: "x < 0" using assms by (smt (verit) divide_pos_pos of_int_pos zero_less_power)
  have "of_int N \<le> \<bar>x\<bar> * 2 ^ 1074"
    using assms(2) xneg by (simp add: field_simps)
  then have "N \<le> m" using assms(1) by (intro fin(3)) auto
  then have "real_of_int N \<le> of_int m" by simp
  then have "- (of_int m / 2 ^ 1074) \<le> - (real_of_int N / 2 ^ 1074)"
    by (simp add: divide_right_mono)
  then show ?thesis using fin(2) xneg by (simp add: sgn_real_def)
next
  case inf
  have "x < 0" using assms by (smt (verit) divide_pos_pos of_int_pos zero_less_power)
  then show ?thesis using inf by simp
qed

subsection \<open>Roundings at the values used below\<close>

lemma round64_0: "round64 0 = Finite 0"
proof -
  have "round64 0 = Finite (sgn 0 * of_int (round_even (\<bar>0\<bar> * 2 ^ 1074)) / 2 ^ 1074)"
    by (rule round64_subnormal) simp
  moreover have "round_even (\<bar>0\<bar> * 2 ^ 1074) = 0"
    by (simp add: round_even_eqI)
  ultimately show ?thesis by simp
qed

lemma round64_half: "round64 (1 / 2) = Finite (1 / 2)"
proof -
  have "round64 (1 / 2) = Finite (sgn (1 / 2) * of_int (4503599627370496 * 2 ^ 1021) / 2 ^ 1074)"
    by (rule round64_normal) (simp_all add: round_even_eqI)
  then show ?thesis by simp
qed

lemma round64_7_10: "round64 (7 / 10) = Finite (3152519739159347 / 4503599627370496)"
proof -
  have "round64 (7 / 10) = Finite (sgn (7 / 10) * of_int (6305039478318694 * 2 ^ 1021) / 2 ^ 1074)"
    by (rule round64_normal) (simp_all add: round_even_eqI)
  then show ?thesis by simp
qed

lemma round64_5500_by_0_7: "round64 (4334714641344102125 / 1125899906842624) = Finite (8466239533875199 / 2199023255552)"
proof -
  have "round64 (4334714641344102125 / 1125899906842624) = Finite (sgn (4334714641344102125 / 1125899906842624) * of_int (8466239533875199 * 2 ^ 1033) / 2 ^ 1074)"
    by (rule round64_normal) (simp_all add: round_even_eqI)
  then show ?thesis by simp
qed

lemma round64_0_7_by_500: "round64 (394064967394918375 / 1125899906842624) = Finite 350"
proof -
  have "round64 (394064967394918375 / 1125899906842624) = Finite (sgn (394064967394918375 / 1125899906842624) * of_int (6157265115545600 * 2 ^ 1030) / 2 ^ 1074)"
    by (rule round64_normal) (simp_all add: round_even_eqI)
  then show ?thesis by simp
qed

lemma round64_2500_by_0_7: "round64 (1970324836974591875 / 1125899906842624) = Finite 1750"
proof -
  have "round64 (1970324836974591875 / 1125899906842624) = Finite (sgn (1970324836974591875 / 1125899906842624) * of_int (7696581394432000 * 2 ^ 1032) / 2 ^ 1074)"
    by (rule round64_normal) (simp_all add: round_even_eqI)
  then show ?thesis by simp
qed

lemma round64_22000_by_0_7: "round64 (4334714641344102125 / 281474976710656) = Finite (8466239533875199 / 549755813888)"
proof -
  have "round64 (4334714641344102125 / 281474976710656) = Finite (sgn (4334714641344102125 / 281474976710656) * of_int (8466239533875199 * 2 ^ 1035) / 2 ^ 1074)"
    by (rule round64_normal) (simp_all add: round_even_eqI)
  then show ?thesis by simp
qed

lemma round64_fare_44: "round64 (8466239533875199 / 549755813888) = Finite (8466239533875199 / 549755813888)"
proof -
  have "round64 (8466239533875199 / 549755813888) = Finite (sgn (8466239533875199 / 549755813888) * of_int (8466239533875199 * 2 ^ 1035) / 2 ^ 1074)"
    by (rule round64_normal) (simp_all add: round_even_eqI)
  then show ?thesis by simp
qed

lemma round64_11000_by_0_7: "round64 (4334714641344102125 / 562949953421312) = Finite (8466239533875199 / 1099511627776)"
proof -
  have "round64 (4334714641344102125 / 562949953421312) = Finite (sgn (4334714641344102125 / 562949953421312) * of_int (8466239533875199 * 2 ^ 1034) / 2 ^ 1074)"
    by (rule round64_normal) (simp_all add: round_even_eqI)
  then show ?thesis by simp
qed

lemma round64_1750_plus_fare_44: "round64 (9428312208179199 / 549755813888) = Finite 17150"
proof -
  have "round64 (9428312208179199 / 549755813888) = Finite (sgn (9428312208179199 / 549755813888) * of_int (4714156104089600 * 2 ^ 1036) / 2 ^ 1074)"
    by (rule round64_normal) (simp_all add: round_even_def Let_def)
  then show ?thesis by simp
qed

lemma round64_17150_plus_fare_22: "round64 (27322863950233599 / 1099511627776) = Finite 24850"
proof -
  have "round64 (27322863950233599 / 1099511627776) = Finite (sgn (27322863950233599 / 1099511627776) * of_int (6830715987558400 * 2 ^ 1036) / 2 ^ 1074)"
    by (rule round64_normal) (simp_all add: round_even_eqI)
  then show ?thesis by simp
qed

lemma round64_fare_44_plus_fare_22: "round64 (25398718601625597 / 1099511627776) = Finite (6349679650406399 / 274877906944)"
proof -
  have "round64 (25398718601625597 / 1099511627776) = Finite (sgn (25398718601625597 / 1099511627776) * of_int (6349679650406399 * 2 ^ 1036) / 2 ^ 1074)"
    by (rule round64_normal) (simp_all add: round_even_eqI)
  then show ?thesis by simp
qed

lemma round64_sum_plus_1750: "round64 (6830715987558399 / 274877906944) = Finite (6830715987558399 / 274877906944)"
proof -
  have "round64 (6830715987558399 / 274877906944) = Finite (sgn (6830715987558399 / 274877906944) * of_int (6830715987558399 * 2 ^ 1036) / 2 ^ 1074)"
    by (rule round64_normal) (simp_all add: round_even_eqI)
  then show ?thesis by simp
qed

lemma round64_10_pow_400: "round64 (10 ^ 400) = PosInf"
proof -
  have "round64 (10 ^ 400) = (if 0 < ((10 ^ 400)::real) then PosInf else NegInf)"
    by (rule round64_overflow [where k = 2350 and M = 7686445155841023]) (simp_all add: round_even_eqI)
  then show ?thesis by simp
qed

lemma round64_min_subnormal: "round64 (- (1 / 2 ^ 1074)) = Finite (- (1 / 2 ^ 1074))"
proof -
  have "round64 (- (1 / 2 ^ 1074)) = Finite (sgn (- (1 / 2 ^ 1074)) * of_int (round_even (\<bar>- (1 / 2 ^ 1074)\<bar> * 2 ^ 1074)) / 2 ^ 1074)"
    by (rule round64_subnormal) simp
  moreover have "round_even (\<bar>- (1 / 2 ^ 1074)\<bar> * 2 ^ 1074) = 1"
    by (simp add: round_even_eqI)
  ultimately show ?thesis by simp
qed

lemma round64_half_min_subnormal: "round64 (- (1 / 2 ^ 1075)) = Finite 0"
proof -
  have "round64 (- (1 / 2 ^ 1075)) = Finite (sgn (- (1 / 2 ^ 1075)) * of_int (round_even (\<bar>- (1 / 2 ^ 1075)\<bar> * 2 ^ 1074)) / 2 ^ 1074)"
    by (rule round64_subnormal) simp
  moreover have "round_even (\<bar>- (1 / 2 ^ 1075)\<bar> * 2 ^ 1074) = 0"
    by (simp add: round_even_def Let_def)
  ultimately show ?thesis by simp
qed

lemma round64_of_int:
  assumes "\<bar>n\<bar> \<le> 2 ^ 53"
  shows "round64 (of_int n) = Finite (of_int n)"
proof -
  define e :: nat where "e = 1074"
  have e53: "53 \<le> e" by (simp add: e_def)
  have unfolded: "round64 x =
     (let t = \<bar>x\<bar> * 2 ^ e;
          k = nat (bitlen \<lfloor>t\<rfloor> - 53);
          m = round_even (t / 2 ^ k) * 2 ^ k
      in if 2 ^ 2098 \<le> m then (if 0 < x then PosInf else NegInf)
         else Finite (sgn x * of_int m / 2 ^ e))" for x
    by (simp only: round64_def e_def)
  define a where "a = \<bar>n\<bar>"
  have a0: "0 \<le> a" and ale: "a \<le> 2 ^ 53" using assms by (simp_all add: a_def)
  let ?t = "\<bar>real_of_int n\<bar> * 2 ^ e"
  have t: "?t = of_int (a * 2 ^ e)" by (simp add: a_def)
  have fl: "\<lfloor>?t\<rfloor> = a * 2 ^ e" by (simp only: t floor_of_int)
  define k where "k = nat (bitlen (a * 2 ^ e) - 53)"
  have key: "round_even (?t / 2 ^ k) * 2 ^ k = a * 2 ^ e"
  proof (cases "a = 0")
    case True
    then show ?thesis by (simp add: t)
  next
    case False
    then have apos: "0 < a" using a0 by simp
    have bl: "bitlen (a * 2 ^ e) = bitlen a + int e"
      using apos by (rule bitlen_pow2)
    have b1: "1 \<le> bitlen a" using apos by (auto simp: bitlen_alt_def)
    show ?thesis
    proof (cases "a = 2 ^ 53")
      case True
      have "bitlen (1 * 2 ^ 53) = bitlen 1 + int 53" by (rule bitlen_pow2) simp
      then have "bitlen a = 54" unfolding True by (simp add: bitlen_alt_def)
      then have k: "k = Suc e" using bl e53 by (simp add: k_def)
      have "?t / 2 ^ k = of_int (2 ^ 52)"
        unfolding t k True by simp
      then have "round_even (?t / 2 ^ k) = 2 ^ 52"
        by (simp only: round_even_of_int)
      then show ?thesis unfolding k True by simp
    next
      case False
      then have "a < 2 ^ 53" using ale by simp
      then have b53: "bitlen a \<le> 53" by (simp add: bitlen_le_iff_power)
      define j where "j = nat (53 - bitlen a)"
      have kj: "k + j = e" using bl b1 b53 e53 by (simp add: k_def j_def)
      have pe: "(2::real) ^ e = 2 ^ j * 2 ^ k" "(2::int) ^ e = 2 ^ j * 2 ^ k"
        using kj by (simp_all add: add.commute flip: power_add)
      have "?t / 2 ^ k = of_int (a * 2 ^ j)"
        unfolding pe(1) by (simp add: a_def)
      then have "round_even (?t / 2 ^ k) = a * 2 ^ j"
        by (simp only: round_even_of_int)
      then show ?thesis unfolding pe(2) by simp
    qed
  qed
  have "a * 2 ^ e \<le> 2 ^ 53 * 2 ^ e" using ale by simp
  also have "\<dots> < (2::int) ^ 2098" by (simp add: e_def)
  finally have small: "\<not> 2 ^ 2098 \<le> a * 2 ^ e" by simp
  have "round64 (of_int n) = Finite (sgn (real_of_int n) * of_int (a * 2 ^ e) / 2 ^ e)"
    unfolding unfolded Let_def fl k_def [symmetric] key using small by simp
  also have "sgn (real_of_int n) * of_int (a * 2 ^ e) / 2 ^ e = of_int n"
    by (simp add: a_def sgn_real_def)
  finally show ?thesis .
qed

lemmas round64_whole =
  round64_of_int [of "5500", simplified]
  round64_of_int [of "3850", simplified]
  round64_of_int [of "2500", simplified]
  round64_of_int [of "1750", simplified]
  round64_of_int [of "22000", simplified]
  round64_of_int [of "11000", simplified]
  round64_of_int [of "17150", simplified]
  round64_of_int [of "10000", simplified]
  round64_of_int [of "5000", simplified]
  round64_of_int [of "- 2000", simplified]

lemmas round64_evals =
  round64_0
  round64_half
  round64_7_10
  round64_5500_by_0_7
  round64_0_7_by_500
  round64_2500_by_0_7
  round64_22000_by_0_7
  round64_fare_44
  round64_11000_by_0_7
  round64_1750_plus_fare_44
  round64_17150_plus_fare_22
  round64_fare_44_plus_fare_22
  round64_sum_plus_1750
  round64_10_pow_400 [simplified]
  round64_min_subnormal [simplified]
  round64_half_min_subnormal [simplified]
  round64_whole

section \<open>Lemmas on the machine model\<close>

lemmas py_defs =
  compute_fare_py_def PyPassenger_init_def PyCalculator_init_def add_passenger_py_def
  process_all_py_def total_collected_py_def float_literal_def float_of_int_def Let_def

lemma compute_fare_py_float:
  "compute_fare_py (p\<lparr>py_distance_km := PyFloat d\<rparr>) (PyFloat r) =
     (let v = PyFloat
            (if py_age p < 12 then dmul (dmul r d) (round64 (1 / 2))
             else if 60 < py_age p then dmul (dmul r d) (round64 (7 / 10))
             else dmul r d)
      in (Inr v, p\<lparr>py_distance_km := PyFloat d, py_final_fare := v\<rparr>))"
  by (simp add: compute_fare_py_def float_literal_def Let_def)

lemma sum_py_whole:
  assumes "\<forall>p \<in> set qs. py_final_fare p = PyFloat (Finite (of_int (w p)))"
    and "\<bar>a\<bar> + (\<Sum>p\<leftarrow>qs. \<bar>w p\<bar>) \<le> 2 ^ 53"
  shows "sum_py (PyFloat (Finite (of_int a))) (map py_final_fare qs)
     = Inr (PyFloat (Finite (of_int (a + (\<Sum>p\<leftarrow>qs. w p)))))"
  using assms
proof (induction qs arbitrary: a)
  case Nil
  then show ?case by simp
next
  case (Cons q qs)
  have "\<bar>a + w q\<bar> \<le> 2 ^ 53" using Cons.prems(2)
    by (smt (verit) sum_list_abs sum_list.Cons list.simps(9) abs_ge_zero sum_list_nonneg imageE set_map)
  then have step: "round64 (of_int a + of_int (w q)) = Finite (of_int (a + w q))"
    using round64_of_int [of "a + w q"] by simp
  have "\<bar>a + w q\<bar> + (\<Sum>p\<leftarrow>qs. \<bar>w p\<bar>) \<le> 2 ^ 53"
    using Cons.prems(2) by simp
  with Cons.IH [of "a + w q"] Cons.prems(1)
  have "sum_py (PyFloat (Finite (of_int (a + w q)))) (map py_final_fare qs)
     = Inr (PyFloat (Finite (of_int (a + w q + (\<Sum>p\<leftarrow>qs. w p)))))"
    by simp
  then show ?case using Cons.prems(1) step by (simp add: add.assoc)
qed

lemma total_collected_py_whole:
  assumes "\<forall>p \<in> set qs. py_final_fare p = PyFloat (Finite (of_int (w p)))"
    and "(\<Sum>p\<leftarrow>qs. \<bar>w p\<bar>) \<le> 2 ^ 53"
  shows "sum_py (PyInt 0) (map py_final_fare qs)
     = (if qs = [] then Inr (PyInt 0) else Inr (PyFloat (Finite (of_int (\<Sum>p\<leftarrow>qs. w p)))))"
proof (cases qs)
  case Nil
  then show ?thesis by simp
next
  case (Cons q rest)
  have wq: "\<bar>w q\<bar> \<le> 2 ^ 53" using assms(2) Cons
    by (smt (verit) sum_list.Cons list.simps(9) sum_list_nonneg abs_ge_zero imageE set_map)
  have first: "py_add (PyInt 0) (py_final_fare q) = Inr (PyFloat (Finite (of_int (w q))))"
    using assms(1) Cons round64_of_int [OF wq] by (simp add: float_of_int_def round64_0)
  have "sum_py (PyFloat (Finite (of_int (w q)))) (map py_final_fare rest)
      = Inr (PyFloat (Finite (of_int (w q + (\<Sum>p\<leftarrow>rest. w p)))))"
    using assms Cons by (intro sum_py_whole) simp_all
  then show ?thesis using Cons first by simp
qed

lemma process_loop_py_None:
  "fst (process_loop_py rate ps) = None \<longleftrightarrow>
     (\<forall>p \<in> set ps. \<exists>v. fst (compute_fare_py p rate) = Inr v)"
  by (induction ps) (auto split: prod.splits sum.splits)

lemma process_loop_py_map:
  "fst (process_loop_py rate ps) = None \<Longrightarrow>
     snd (process_loop_py rate ps) = map (\<lambda>p. snd (compute_fare_py p rate)) ps"
  by (induction ps) (auto split: prod.splits sum.splits)

lemma process_loop_py_length: "length (snd (process_loop_py rate ps)) = length ps"
  by (induction ps) (auto split: prod.splits sum.splits)

lemma dmul_const_le0:
  assumes "d_le0 a" and "0 < c"
  shows "d_le0 (dmul a (Finite c))"
proof (cases a)
  case (Finite x)
  then have "x * c \<le> 0" using assms by (simp add: mult_le_0_iff)
  then show ?thesis using Finite by (simp add: round64_le0)
qed (use assms in auto)

lemma dmul_const_lt0:
  assumes "a = NegInf \<or> (\<exists>y. a = Finite y \<and> y \<le> - (of_int 2 / 2 ^ 1074))" and "1 / 2 \<le> c"
  shows "d_lt0 (dmul a (Finite c))"
proof -
  from assms(1) show ?thesis
  proof
    assume "a = NegInf"
    then show ?thesis using assms(2) by simp
  next
    assume "\<exists>y. a = Finite y \<and> y \<le> - (of_int 2 / 2 ^ 1074)"
    then obtain y where a: "a = Finite y" and y: "y \<le> - (of_int 2 / 2 ^ 1074)" by blast
    define u :: real where "u = 1 / 2 ^ 1074"
    have u0: "0 < u" by (simp add: u_def)
    have yu: "y \<le> - (2 * u)" using y by (simp add: u_def)
    have "y * c \<le> - (2 * u) * c"
      using yu assms(2) by (intro mult_right_mono) simp_all
    also have "\<dots> \<le> - (2 * u) * (1 / 2)"
      using assms(2) u0 by (intro mult_left_mono_neg) simp_all
    finally have "y * c \<le> - u" by simp
    then have "y * c \<le> - (of_int 1 / 2 ^ 1074)" by (simp add: u_def)
    with round64_neg_bound [of 1 "y * c"]
    have "round64 (y * c) = NegInf \<or> (\<exists>z. round64 (y * c) = Finite z \<and> z \<le> - (of_int 1 / 2 ^ 1074))"
      by blast
    then have "d_lt0 (round64 (y * c))"
    proof
      assume "round64 (y * c) = NegInf"
      then show ?thesis by simp
    next
      assume "\<exists>z. round64 (y * c) = Finite z \<and> z \<le> - (of_int 1 / 2 ^ 1074)"
      then obtain z where z: "round64 (y * c) = Finite z" "z \<le> - (of_int 1 / 2 ^ 1074)" by blast
      have "z \<le> - u" using z(2) by (simp add: u_def)
      then have "z < 0" using u0 by linarith
      then show ?thesis using z(1) by simp
    qed
    then show ?thesis using a by simp
  qed
qed

lemma round64_neg_lt0:
  assumes "x \<le> - (of_int 2 / 2 ^ 1074)"
  shows "d_lt0 (round64 x)"
proof -
  define u :: real where "u = 1 / 2 ^ 1074"
  have u0: "0 < u" by (simp add: u_def)
  from round64_neg_bound [of 2 x] assms
  have "round64 x = NegInf \<or> (\<exists>y. round64 x = Finite y \<and> y \<le> - (of_int 2 / 2 ^ 1074))"
    by blast
  then show ?thesis
  proof
    assume "round64 x = NegInf"
    then show ?thesis by simp
  next
    assume "\<exists>y. round64 x = Finite y \<and> y \<le> - (of_int 2 / 2 ^ 1074)"
    then obtain y where y: "round64 x = Finite y" "y \<le> - (of_int 2 / 2 ^ 1074)" by blast
    have "y \<le> - (2 * u)" using y(2) by (simp add: u_def)
    then have "y < 0" using u0 by linarith
    then show ?thesis using y(1) by simp
  qed
qed

lemma fare_double_le0:
  assumes "d < 0" and "0 < r"
  shows "d_le0 (if a < 12 then dmul (dmul (Finite r) (Finite d)) (round64 (1 / 2))
                else if 60 < a then dmul (dmul (Finite r) (Finite d)) (round64 (7 / 10))
                else dmul (Finite r) (Finite d))"
proof -
  have "r * d \<le> 0" using assms by (simp add: mult_le_0_iff)
  then have base: "d_le0 (dmul (Finite r) (Finite d))" by (simp add: round64_le0)
  show ?thesis
    using base dmul_const_le0 [OF base, of "1 / 2"]
      dmul_const_le0 [OF base, of "3152519739159347 / 4503599627370496"]
    by (simp add: round64_half round64_7_10)
qed

lemma fare_double_lt0:
  assumes "r * d \<le> - (2 / 2 ^ 1074)"
  shows "d_lt0 (if a < 12 then dmul (dmul (Finite r) (Finite d)) (round64 (1 / 2))
                else if 60 < a then dmul (dmul (Finite r) (Finite d)) (round64 (7 / 10))
                else dmul (Finite r) (Finite d))"
proof -
  have x: "r * d \<le> - (of_int 2 / 2 ^ 1074)" using assms by simp
  have base: "d_lt0 (dmul (Finite r) (Finite d))"
    using round64_neg_lt0 [OF x] by simp
  have cases: "dmul (Finite r) (Finite d) = NegInf
      \<or> (\<exists>y. dmul (Finite r) (Finite d) = Finite y \<and> y \<le> - (of_int 2 / 2 ^ 1074))"
    using round64_neg_bound [of 2 "r * d"] x by simp
  show ?thesis
    using base dmul_const_lt0 [OF cases, of "1 / 2"]
      dmul_const_lt0 [OF cases, of "3152519739159347 / 4503599627370496"]
    by (simp add: round64_half round64_7_10)
qed

lemma compute_fare_py_float_ok:
  "is_float (py_distance_km q) \<Longrightarrow> is_float rate \<Longrightarrow> \<exists>v. fst (compute_fare_py q rate) = Inr v"
  by (cases "py_distance_km q"; cases rate)
     (simp_all add: compute_fare_py_def float_literal_def Let_def)

section \<open>Claims\<close>

text \<open>
  C1, as amended. For a \<^verbatim>\<open>float\<close> distance and a \<^verbatim>\<open>float\<close> rate, \<^verbatim>\<open>compute_fare\<close> returns the
  double product \<open>rate * distance_km\<close>, multiplied in double arithmetic by \<open>0.5\<close> when
  \<open>age < 12\<close>, by \<open>0.7\<close> when \<open>age > 60\<close>, and left as it is otherwise: the product of rate
  and distance is taken, and rounded, first. At the boundary ages: 11 gives
  \<open>(r * d) * 0.5\<close>, 61 gives \<open>(r * d) * 0.7\<close>, 12 and 60 give the full fare \<open>r * d\<close>. On finite
  doubles the product is the rounded exact product, and the literals are \<open>1/2\<close> and the
  double nearest to \<open>7/10\<close>.
\<close>

theorem compute_fare_py_bands:
  "fst (compute_fare_py (p\<lparr>py_distance_km := PyFloat d\<rparr>) (PyFloat r)) =
     Inr (PyFloat
       (if py_age p < 12 then dmul (dmul r d) (round64 (1 / 2))
        else if 60 < py_age p then dmul (dmul r d) (round64 (7 / 10))
        else dmul r d))
   \<and> fst (compute_fare_py (PyPassenger_init n 11 (PyFloat d)) (PyFloat r))
       = Inr (PyFloat (dmul (dmul r d) (round64 (1 / 2))))
   \<and> fst (compute_fare_py (PyPassenger_init n 61 (PyFloat d)) (PyFloat r))
       = Inr (PyFloat (dmul (dmul r d) (round64 (7 / 10))))
   \<and> fst (compute_fare_py (PyPassenger_init n 12 (PyFloat d)) (PyFloat r))
       = Inr (PyFloat (dmul r d))
   \<and> fst (compute_fare_py (PyPassenger_init n 60 (PyFloat d)) (PyFloat r))
       = Inr (PyFloat (dmul r d))
   \<and> dmul (Finite x) (Finite y) = round64 (x * y)
   \<and> round64 (1 / 2) = Finite (1 / 2)
   \<and> round64 (7 / 10) = Finite (3152519739159347 / 4503599627370496)"
  by (simp add: compute_fare_py_def PyPassenger_init_def float_literal_def Let_def
      round64_half round64_7_10)

text \<open>
  C1 as stated fails: it equates the fare at age 61 with \<open>0.7 * r * d\<close>. For 11 km at rate
  500 the program returns \<open>(500.0 * 11.0) * 0.7 = 3849.9999999999995\<close>, the double
  \<open>8466239533875199 / 2 ^ 41\<close>, which is neither the real \<open>0.7 * 500 * 11 = 3850\<close> nor the
  double that \<^verbatim>\<open>0.7 * 500.0 * 11.0\<close> evaluates to, \<open>3850.0\<close>.
\<close>

theorem fare_age_61_counterexample:
  "fst (compute_fare_py (PyPassenger_init ''Luis'' 61 (PyFloat (Finite 11))) (PyFloat (Finite 500)))
     = Inr (PyFloat (Finite (8466239533875199 / 2 ^ 41)))
   \<and> dmul (dmul (round64 (7 / 10)) (Finite 500)) (Finite 11) = Finite 3850
   \<and> (8466239533875199 / 2 ^ 41 :: real) \<noteq> 0.7 * 500 * 11
   \<and> (8466239533875199 / 2 ^ 41 :: real) \<noteq> 3850"
  by (simp add: py_defs round64_evals)

text \<open>
  C2. After \<^verbatim>\<open>process_all\<close>, the fare field of every stored record is \<open>FareRule\<close> of the
  record's distance and age and the calculator's rate (position by position, the fares
  are the rule applied to the records before the call), and \<^verbatim>\<open>total_collected\<close> is the
  sum of the fare fields. Before any \<^verbatim>\<open>process_all\<close>, a calculator filled by
  \<^verbatim>\<open>add_passenger\<close> with any number of passengers as \<^verbatim>\<open>__init__\<close> leaves them has total
  \<open>0\<close>; so has the empty calculator.
\<close>

theorem process_all_invariant:
  "(\<forall>p \<in> set (passengers (process_all b)).
      final_fare p = FareRule (distance_km p) (age p) (base_rate_per_km (process_all b)))
   \<and> map final_fare (passengers (process_all b))
       = map (\<lambda>p. FareRule (distance_km p) (age p) (base_rate_per_km b)) (passengers b)
   \<and> total_collected (process_all b) = sum_list (map final_fare (passengers (process_all b)))
   \<and> total_collected
        (fold (\<lambda>(n, a, d) c. add_passenger c (Passenger_init n a d)) entries
           (TransportFareCalculator_init rate)) = 0
   \<and> total_collected (TransportFareCalculator_init rate) = 0"
proof -
  have fares: "\<forall>p \<in> set (passengers (process_all b)).
      final_fare p = FareRule (distance_km p) (age p) (base_rate_per_km (process_all b))"
    by (auto simp: process_all_def process_loop_map)
  have pointwise: "map final_fare (passengers (process_all b))
       = map (\<lambda>p. FareRule (distance_km p) (age p) (base_rate_per_km b)) (passengers b)"
    by (simp add: process_all_def process_loop_map)
  have total: "total_collected (process_all b)
       = sum_list (map final_fare (passengers (process_all b)))"
    by (rule total_collected_sum_list)
  have before: "total_collected
        (fold (\<lambda>(n, a, d) c. add_passenger c (Passenger_init n a d)) entries
           (TransportFareCalculator_init rate)) = 0"
    by (simp add: total_collected_sum_list fresh_batch_fares TransportFareCalculator_init_def
          sum_list_replicate_zero)
  have empty: "total_collected (TransportFareCalculator_init rate) = 0"
    by (simp add: total_collected_def TransportFareCalculator_init_def)
  from fares pointwise total before empty show ?thesis by blast
qed

theorem process_all_invariant_witness:
  "final_fare (hd (passengers (process_all
       (add_passenger (TransportFareCalculator_init 500) (Passenger_init ''Ana'' 10 20)))))
     = FareRule 20 10 500
   \<and> total_collected (process_all
       (add_passenger (TransportFareCalculator_init 500) (Passenger_init ''Ana'' 10 20))) = 5000
   \<and> total_collected
       (fold (\<lambda>(n, a, d) c. add_passenger c (Passenger_init n a d))
          [(''Ana'', 10, 20), (''Luis'', 65, 10)] (TransportFareCalculator_init 500)) = 0"
  using process_all_invariant
    [of "add_passenger (TransportFareCalculator_init 500) (Passenger_init ''Ana'' 10 20)"
        "[(''Ana'', 10, 20), (''Luis'', 65, 10)]" 500]
  by (simp add: model_defs)

text \<open>
  C3. \<^verbatim>\<open>process_all\<close> is idempotent: a second call right after the first, with the same
  rate and records, leaves the whole calculator as the first call left it; in
  particular every fare field and \<^verbatim>\<open>total_collected\<close> are the same.
\<close>

theorem process_all_idempotent:
  "process_all (process_all b) = process_all b
   \<and> map final_fare (passengers (process_all (process_all b)))
       = map final_fare (passengers (process_all b))
   \<and> total_collected (process_all (process_all b)) = total_collected (process_all b)"
proof -
  have "process_all (process_all b) = process_all b"
    by (simp add: process_all_def process_loop_map)
  then show ?thesis by simp
qed

text \<open>
  C4. For \<open>distance_km \<ge> 0\<close>, \<open>age \<ge> 0\<close> and \<open>rate > 0\<close> the computed fare is non-negative,
  and it is determined by distance, age and rate alone: calling \<^verbatim>\<open>compute_fare\<close> again on
  the object that the first call mutated returns the same value, and so does a call on
  a passenger that differs only in its name and in the fare it held before.
\<close>

theorem compute_fare_nonneg:
  "0 \<le> distance_km p \<Longrightarrow> 0 \<le> age p \<Longrightarrow> 0 < r \<Longrightarrow>
     0 \<le> fst (compute_fare p r)
     \<and> fst (compute_fare (snd (compute_fare p r)) r) = fst (compute_fare p r)
     \<and> fst (compute_fare (p\<lparr>name := n, final_fare := f\<rparr>) r) = fst (compute_fare p r)"
  by (simp add: compute_fare_def Let_def)

theorem compute_fare_nonneg_witness:
  "(0::real) \<le> 20 \<and> (0::int) \<le> 10 \<and> (0::real) < 500
   \<and> 0 \<le> fst (compute_fare (Passenger_init ''Ana'' 10 20) 500)
   \<and> fst (compute_fare (snd (compute_fare (Passenger_init ''Ana'' 10 20) 500)) 500) = 5000"
  using compute_fare_nonneg [of "Passenger_init ''Ana'' 10 20" 500]
  by (simp add: model_defs)

text \<open>
  C5. With rate 500, a passenger of age 10 travelling 20 km gets fare 5000, one of age
  65 travelling 10 km gets 3500, one of age 30 travelling 15 km gets 7500, and the
  calculator holding exactly these three, after \<^verbatim>\<open>process_all\<close>, has
  \<^verbatim>\<open>total_collected\<close> 16000. The same with the default rate \<^verbatim>\<open>BASE_RATE_PER_KM\<close>.
\<close>

theorem fares_example:
  "fst (compute_fare (Passenger_init n1 10 20) 500) = 5000
   \<and> fst (compute_fare (Passenger_init n2 65 10) 500) = 3500
   \<and> fst (compute_fare (Passenger_init n3 30 15) 500) = 7500
   \<and> fst (compute_fare_default (Passenger_init n1 10 20)) = 5000
   \<and> total_collected (process_all
        (add_passenger (add_passenger (add_passenger (TransportFareCalculator_init 500)
           (Passenger_init n1 10 20)) (Passenger_init n2 65 10)) (Passenger_init n3 30 15)))
      = 16000
   \<and> total_collected (process_all
        (add_passenger (add_passenger (add_passenger TransportFareCalculator_default
           (Passenger_init n1 10 20)) (Passenger_init n2 65 10)) (Passenger_init n3 30 15)))
      = 16000"
  by (simp add: compute_fare_def compute_fare_default_def BASE_RATE_PER_KM_def
      TransportFareCalculator_default_def Passenger_init_def TransportFareCalculator_init_def
      add_passenger_def process_all_def total_collected_def Let_def)

text \<open>
  C6. For a fixed age \<open>\<ge> 0\<close> and a fixed rate \<open>> 0\<close> the fare is monotone in the distance:
  \<open>0 \<le> d1 \<le> d2\<close> gives a fare for \<open>d1\<close> that is at most the fare for \<open>d2\<close>.
\<close>

theorem compute_fare_mono_distance:
  "0 \<le> age p \<Longrightarrow> 0 < r \<Longrightarrow> 0 \<le> d1 \<Longrightarrow> d1 \<le> d2 \<Longrightarrow>
     fst (compute_fare (p\<lparr>distance_km := d1\<rparr>) r) \<le> fst (compute_fare (p\<lparr>distance_km := d2\<rparr>) r)"
  by (simp add: compute_fare_def Let_def)

theorem compute_fare_mono_distance_witness:
  "(0::int) \<le> 65 \<and> (0::real) < 500 \<and> (0::real) \<le> 10 \<and> (10::real) \<le> 15
   \<and> fst (compute_fare ((Passenger_init ''Luis'' 65 0)\<lparr>distance_km := 10\<rparr>) 500)
       \<le> fst (compute_fare ((Passenger_init ''Luis'' 65 0)\<lparr>distance_km := 15\<rparr>) 500)
   \<and> fst (compute_fare ((Passenger_init ''Luis'' 65 0)\<lparr>distance_km := 10\<rparr>) 500) = 3500
   \<and> fst (compute_fare ((Passenger_init ''Luis'' 65 0)\<lparr>distance_km := 15\<rparr>) 500) = 5250"
  using compute_fare_mono_distance [of "Passenger_init ''Luis'' 65 0" 500 10 15]
  by (simp add: model_defs)

text \<open>
  C7, as amended. The order of the records does not matter for the fares, and not for
  the total when the additions are exact. For every calculator \<open>b\<close> on which
  \<^verbatim>\<open>process_all\<close> completes and every permutation \<open>ps\<close> of its passengers,
  \<^verbatim>\<open>process_all\<close> completes on the permutation too and leaves the same multiset of
  passengers, hence of fares: a passenger gets the same fare wherever it stands. And for
  every calculator \<open>c\<close> whose stored fares are whole numbers \<open>w p\<close> (as floats) with
  \<open>\<Sum> \<bar>w p\<bar> \<le> 2 ^ 53\<close>, \<^verbatim>\<open>total_collected\<close> is the same for every permutation \<open>qs\<close> of its
  passengers. For other fares the total, a left-to-right sum of doubles, can depend on
  the order.
\<close>

theorem fares_permutation:
  assumes "mset ps = mset (py_passengers b)" and "fst (process_all_py b) = None"
    and "\<forall>p \<in> set (py_passengers c). py_final_fare p = PyFloat (Finite (of_int (w p)))"
    and "(\<Sum>p\<leftarrow>py_passengers c. \<bar>w p\<bar>) \<le> 2 ^ 53"
    and "mset qs = mset (py_passengers c)"
  shows "fst (process_all_py (b\<lparr>py_passengers := ps\<rparr>)) = None
     \<and> mset (py_passengers (snd (process_all_py (b\<lparr>py_passengers := ps\<rparr>))))
         = mset (py_passengers (snd (process_all_py b)))
     \<and> mset (map py_final_fare (py_passengers (snd (process_all_py (b\<lparr>py_passengers := ps\<rparr>)))))
         = mset (map py_final_fare (py_passengers (snd (process_all_py b))))
     \<and> total_collected_py (c\<lparr>py_passengers := qs\<rparr>) = total_collected_py c"
proof -
  let ?rate = "py_base_rate_per_km b"
  have sets: "set ps = set (py_passengers b)" using assms(1) by (rule mset_eq_setD)
  have ok: "fst (process_loop_py ?rate (py_passengers b)) = None"
    using assms(2) by (simp add: process_all_py_def case_prod_beta)
  then have ok': "fst (process_loop_py ?rate ps) = None"
    using sets by (simp add: process_loop_py_None)
  have done1: "fst (process_all_py (b\<lparr>py_passengers := ps\<rparr>)) = None"
    using ok' by (simp add: process_all_py_def case_prod_beta)
  have "mset (map (\<lambda>p. snd (compute_fare_py p ?rate)) ps)
      = mset (map (\<lambda>p. snd (compute_fare_py p ?rate)) (py_passengers b))"
    using assms(1) by simp
  then have same: "mset (py_passengers (snd (process_all_py (b\<lparr>py_passengers := ps\<rparr>))))
         = mset (py_passengers (snd (process_all_py b)))"
    using process_loop_py_map [OF ok] process_loop_py_map [OF ok']
    by (simp add: process_all_py_def case_prod_beta)
  then have fares: "mset (map py_final_fare (py_passengers (snd (process_all_py (b\<lparr>py_passengers := ps\<rparr>)))))
         = mset (map py_final_fare (py_passengers (snd (process_all_py b))))"
    by simp
  have sets_c: "set qs = set (py_passengers c)" using assms(5) by (rule mset_eq_setD)
  have abs_eq: "(\<Sum>p\<leftarrow>qs. \<bar>w p\<bar>) = (\<Sum>p\<leftarrow>py_passengers c. \<bar>w p\<bar>)"
    using assms(5) by (metis mset_map sum_mset_sum_list)
  have sum_eq: "(\<Sum>p\<leftarrow>qs. w p) = (\<Sum>p\<leftarrow>py_passengers c. w p)"
    using assms(5) by (metis mset_map sum_mset_sum_list)
  have empty_eq: "qs = [] \<longleftrightarrow> py_passengers c = []"
    using assms(5) by (metis mset_zero_iff)
  have "sum_py (PyInt 0) (map py_final_fare qs)
      = (if qs = [] then Inr (PyInt 0) else Inr (PyFloat (Finite (of_int (\<Sum>p\<leftarrow>qs. w p)))))"
    using assms(3,4) sets_c abs_eq by (intro total_collected_py_whole) simp_all
  moreover have "sum_py (PyInt 0) (map py_final_fare (py_passengers c))
      = (if py_passengers c = [] then Inr (PyInt 0)
         else Inr (PyFloat (Finite (of_int (\<Sum>p\<leftarrow>py_passengers c. w p)))))"
    using assms(3,4) by (intro total_collected_py_whole) simp_all
  ultimately have total: "total_collected_py (c\<lparr>py_passengers := qs\<rparr>) = total_collected_py c"
    using sum_eq empty_eq by (simp add: total_collected_py_def)
  from done1 same fares total show ?thesis by blast
qed

theorem fares_permutation_witness:
  "fst (process_all_py
      \<lparr>py_base_rate_per_km = PyFloat (Finite 500),
       py_passengers = [PyPassenger_init ''Luis'' 30 (PyFloat (Finite 10)),
         PyPassenger_init ''Ana'' 10 (PyFloat (Finite 20))]\<rparr>) = None
   \<and> total_collected_py
      \<lparr>py_base_rate_per_km = PyFloat (Finite 500),
       py_passengers =
         [(PyPassenger_init ''Luis'' 30 (PyFloat (Finite 10)))\<lparr>py_final_fare := PyFloat (Finite 5000)\<rparr>,
          (PyPassenger_init ''Ana'' 10 (PyFloat (Finite 20)))\<lparr>py_final_fare := PyFloat (Finite 5000)\<rparr>]\<rparr>
     = Inr (PyFloat (Finite 10000))
   \<and> snd (process_all_py
      \<lparr>py_base_rate_per_km = PyFloat (Finite 500),
       py_passengers = [PyPassenger_init ''Ana'' 10 (PyFloat (Finite 20)),
         PyPassenger_init ''Luis'' 30 (PyFloat (Finite 10))]\<rparr>)
     = \<lparr>py_base_rate_per_km = PyFloat (Finite 500),
        py_passengers =
          [(PyPassenger_init ''Ana'' 10 (PyFloat (Finite 20)))\<lparr>py_final_fare := PyFloat (Finite 5000)\<rparr>,
           (PyPassenger_init ''Luis'' 30 (PyFloat (Finite 10)))\<lparr>py_final_fare := PyFloat (Finite 5000)\<rparr>]\<rparr>"
  using fares_permutation
    [where ps = "[PyPassenger_init ''Luis'' 30 (PyFloat (Finite 10)),
          PyPassenger_init ''Ana'' 10 (PyFloat (Finite 20))]"
       and b = "\<lparr>py_base_rate_per_km = PyFloat (Finite 500),
          py_passengers = [PyPassenger_init ''Ana'' 10 (PyFloat (Finite 20)),
            PyPassenger_init ''Luis'' 30 (PyFloat (Finite 10))]\<rparr>"
       and c = "\<lparr>py_base_rate_per_km = PyFloat (Finite 500),
          py_passengers =
            [(PyPassenger_init ''Ana'' 10 (PyFloat (Finite 20)))\<lparr>py_final_fare := PyFloat (Finite 5000)\<rparr>,
             (PyPassenger_init ''Luis'' 30 (PyFloat (Finite 10)))\<lparr>py_final_fare := PyFloat (Finite 5000)\<rparr>]\<rparr>"
       and w = "\<lambda>p. 5000"
       and qs = "[(PyPassenger_init ''Luis'' 30 (PyFloat (Finite 10)))\<lparr>py_final_fare := PyFloat (Finite 5000)\<rparr>,
          (PyPassenger_init ''Ana'' 10 (PyFloat (Finite 20)))\<lparr>py_final_fare := PyFloat (Finite 5000)\<rparr>]"]
  by (simp add: py_defs round64_evals)

text \<open>
  C7 as stated fails. Three passengers of age 65 travel 5, 44 and 22 km at rate 500;
  their fares are the doubles \<open>1750.0\<close>, \<open>15399.999999999998\<close> and \<open>7699.999999999999\<close>.
  In the order 5, 44, 22 \<^verbatim>\<open>total_collected\<close> returns \<open>24850.0\<close>; in the order 44, 22, 5 it
  returns \<open>24849.999999999996\<close>, the double \<open>6830715987558399 / 2 ^ 38\<close>.
\<close>

theorem total_order_counterexample:
  "mset [PyPassenger_init ''A'' 65 (PyFloat (Finite 44)), PyPassenger_init ''B'' 65 (PyFloat (Finite 22)),
         PyPassenger_init ''C'' 65 (PyFloat (Finite 5))]
     = mset [PyPassenger_init ''C'' 65 (PyFloat (Finite 5)), PyPassenger_init ''A'' 65 (PyFloat (Finite 44)),
         PyPassenger_init ''B'' 65 (PyFloat (Finite 22))]
   \<and> total_collected_py (snd (process_all_py
        \<lparr>py_base_rate_per_km = PyFloat (Finite 500),
         py_passengers = [PyPassenger_init ''C'' 65 (PyFloat (Finite 5)),
           PyPassenger_init ''A'' 65 (PyFloat (Finite 44)),
           PyPassenger_init ''B'' 65 (PyFloat (Finite 22))]\<rparr>))
       = Inr (PyFloat (Finite 24850))
   \<and> total_collected_py (snd (process_all_py
        \<lparr>py_base_rate_per_km = PyFloat (Finite 500),
         py_passengers = [PyPassenger_init ''A'' 65 (PyFloat (Finite 44)),
           PyPassenger_init ''B'' 65 (PyFloat (Finite 22)),
           PyPassenger_init ''C'' 65 (PyFloat (Finite 5))]\<rparr>))
       = Inr (PyFloat (Finite (6830715987558399 / 2 ^ 38)))
   \<and> (6830715987558399 / 2 ^ 38 :: real) \<noteq> 24850"
  by (simp add: py_defs round64_evals)

text \<open>
  C8. The summary is a read-only projection: \<^verbatim>\<open>print_summary\<close> leaves the calculator as
  it was (rate, list of passengers and every field of every passenger), and the rows it
  prints are name, age, distance and fare of each passenger, in the order of the list.
\<close>

theorem print_summary_read_only:
  "snd (print_summary b) = b
   \<and> filter is_row (fst (print_summary b))
       = map (\<lambda>p. Row_line (name p) (age p) (distance_km p) (final_fare p)) (passengers b)"
  by (simp add: print_summary_def filter_is_row_print_rows)

text \<open>
  C9. \<^verbatim>\<open>compute_fare\<close> returns the value it stores: the returned fare is the
  \<^verbatim>\<open>final_fare\<close> field of the passenger after the call, and the call leaves name, age and
  distance as they were.
\<close>

theorem compute_fare_returns_stored:
  "fst (compute_fare p r) = final_fare (snd (compute_fare p r))
   \<and> name (snd (compute_fare p r)) = name p
   \<and> age (snd (compute_fare p r)) = age p
   \<and> distance_km (snd (compute_fare p r)) = distance_km p"
  by (simp add: compute_fare_def Let_def)

text \<open>
  C10, as amended. The core checks no precondition, and on \<^verbatim>\<open>float\<close> arguments it never
  raises: for every double distance \<open>y\<close> and rate \<open>x\<close> (infinities and NaN included) and
  every age, \<^verbatim>\<open>compute_fare\<close> returns without error, and \<^verbatim>\<open>process_all\<close> completes on every
  calculator whose rate and distances are floats, keeping every record. A negative
  distance \<open>d\<close> is neither rejected nor clamped: with a rate \<open>r > 0\<close> the fare, returned
  and stored, is never positive, and it is negative whenever \<open>r * d \<le> -(2 ^ -1073)\<close>, that
  is, unless the product underflows.
\<close>

theorem negative_distance_fare:
  assumes "d < 0" and "0 < r"
    and "\<forall>q \<in> set (py_passengers b). is_float (py_distance_km q)"
    and "is_float (py_base_rate_per_km b)"
  shows "fst (compute_fare_py (p\<lparr>py_distance_km := PyFloat y\<rparr>) (PyFloat x)) \<noteq> Inl e
     \<and> fst (process_all_py b) = None
     \<and> length (py_passengers (snd (process_all_py b))) = length (py_passengers b)
     \<and> fst (compute_fare_py (p\<lparr>py_distance_km := PyFloat (Finite d)\<rparr>) (PyFloat (Finite r)))
         = Inr (py_final_fare
             (snd (compute_fare_py (p\<lparr>py_distance_km := PyFloat (Finite d)\<rparr>) (PyFloat (Finite r)))))
     \<and> py_le0 (py_final_fare
           (snd (compute_fare_py (p\<lparr>py_distance_km := PyFloat (Finite d)\<rparr>) (PyFloat (Finite r)))))
     \<and> (r * d \<le> - (2 / 2 ^ 1074) \<longrightarrow>
         py_lt0 (py_final_fare
           (snd (compute_fare_py (p\<lparr>py_distance_km := PyFloat (Finite d)\<rparr>) (PyFloat (Finite r))))))"
proof -
  have noerr: "fst (compute_fare_py (p\<lparr>py_distance_km := PyFloat y\<rparr>) (PyFloat x)) \<noteq> Inl e"
    by (simp add: compute_fare_py_float Let_def)
  have "\<forall>q \<in> set (py_passengers b). \<exists>v. fst (compute_fare_py q (py_base_rate_per_km b)) = Inr v"
    using assms(3,4) by (auto intro: compute_fare_py_float_ok)
  then have "fst (process_loop_py (py_base_rate_per_km b) (py_passengers b)) = None"
    by (simp add: process_loop_py_None)
  then have batch: "fst (process_all_py b) = None"
    by (simp add: process_all_py_def case_prod_beta)
  have len: "length (py_passengers (snd (process_all_py b))) = length (py_passengers b)"
    by (simp add: process_all_py_def case_prod_beta process_loop_py_length)
  have ret: "fst (compute_fare_py (p\<lparr>py_distance_km := PyFloat (Finite d)\<rparr>) (PyFloat (Finite r)))
         = Inr (py_final_fare
             (snd (compute_fare_py (p\<lparr>py_distance_km := PyFloat (Finite d)\<rparr>) (PyFloat (Finite r)))))"
    by (simp add: compute_fare_py_float Let_def)
  have le: "py_le0 (py_final_fare
           (snd (compute_fare_py (p\<lparr>py_distance_km := PyFloat (Finite d)\<rparr>) (PyFloat (Finite r)))))"
    using fare_double_le0 [OF assms(1,2), of "py_age p"]
    by (simp add: compute_fare_py_float Let_def)
  have lt: "r * d \<le> - (2 / 2 ^ 1074) \<longrightarrow>
         py_lt0 (py_final_fare
           (snd (compute_fare_py (p\<lparr>py_distance_km := PyFloat (Finite d)\<rparr>) (PyFloat (Finite r)))))"
  proof
    assume "r * d \<le> - (2 / 2 ^ 1074)"
    from fare_double_lt0 [OF this, of "py_age p"] show "py_lt0 (py_final_fare
           (snd (compute_fare_py (p\<lparr>py_distance_km := PyFloat (Finite d)\<rparr>) (PyFloat (Finite r)))))"
      by (simp add: compute_fare_py_float Let_def)
  qed
  from noerr batch len ret le lt show ?thesis by blast
qed

theorem negative_distance_fare_witness:
  "fst (compute_fare_py (PyPassenger_init ''Eva'' 30 (PyFloat (Finite (- 4)))) (PyFloat (Finite 500)))
     = Inr (PyFloat (Finite (- 2000)))
   \<and> py_final_fare
       (snd (compute_fare_py (PyPassenger_init ''Eva'' 30 (PyFloat (Finite (- 4)))) (PyFloat (Finite 500))))
     = PyFloat (Finite (- 2000))
   \<and> py_lt0 (PyFloat (Finite (- 2000)))
   \<and> fst (process_all_py (add_passenger_py (PyCalculator_init (PyFloat (Finite 500)))
         (PyPassenger_init ''Eva'' 30 (PyFloat (Finite (- 4)))))) = None"
  using negative_distance_fare
    [where d = "- 4" and r = 500
       and b = "add_passenger_py (PyCalculator_init (PyFloat (Finite 500)))
           (PyPassenger_init ''Eva'' 30 (PyFloat (Finite (- 4))))"
       and p = "PyPassenger_init ''Eva'' 30 (PyFloat (Finite 0))"
       and y = "Finite (- 4)" and x = "Finite 500" and e = OverflowError]
  by (simp add: py_defs round64_evals)

text \<open>
  C10 as stated fails twice. A distance can be a real number that only an \<^verbatim>\<open>int\<close> holds:
  at the distance \<open>10 ^ 400\<close> the product \<^verbatim>\<open>500.0 * 10**400\<close> raises \<^verbatim>\<open>OverflowError\<close>, in
  \<^verbatim>\<open>compute_fare\<close> and through \<^verbatim>\<open>process_all\<close>. And a negative distance does not always
  give a negative fare: at the distance \<open>-(2 ^ -1074)\<close> (\<^verbatim>\<open>-5e-324\<close>), rate \<open>1.0\<close> and age 5
  the fare underflows to zero, which is not \<open>< 0\<close>.
\<close>

theorem contract_counterexample:
  "fst (compute_fare_py (PyPassenger_init ''Eva'' 30 (PyInt (10 ^ 400))) (PyFloat (Finite 500)))
     = Inl OverflowError
   \<and> fst (process_all_py (add_passenger_py (PyCalculator_init (PyFloat (Finite 500)))
         (PyPassenger_init ''Eva'' 30 (PyInt (10 ^ 400))))) = Some OverflowError
   \<and> fst (compute_fare_py (PyPassenger_init ''Teo'' 5 (PyFloat (Finite (- (1 / 2 ^ 1074)))))
         (PyFloat (Finite 1))) = Inr (PyFloat (Finite 0))
   \<and> \<not> py_lt0 (PyFloat (Finite 0))"
  by (simp add: py_defs round64_evals)

end
